theory Spec2Isabelle
  imports Main "HOL-Library.Word"
begin

unbundle bit_operations_syntax

section \<open>The Firmata client of platforms/firmata/client/client.go\<close>

text \<open>
  A shallow embedding of the client: the pin table, the transport, the request encoders
  and \<open>process\<close>, the function that reads one message and applies it. It follows
  the first of the two versions in the source file. Go's \<open>byte\<close> is
  an \<open>8 word\<close>, so that \<open><<\<close> and \<open>*\<close> on bytes lose the high bits as in the source.
  Go's \<open>int\<close> is \<open>int\<close>: the code only stores, compares, masks and shifts such values,
  and none of its arithmetic can leave 64 bits. The one \<open>int\<close> that is shifted by an
  arbitrary byte, \<open>supportedModes\<close>, is a \<open>64 word\<close>.
\<close>

type_synonym byte = "8 word"

subsection \<open>Constants\<close>

definition Input :: int where "Input = 0x00"
definition Output :: int where "Output = 0x01"
definition Analog :: int where "Analog = 0x02"
definition Pwm :: int where "Pwm = 0x03"
definition Servo :: int where "Servo = 0x04"

text \<open>
  The message codes. Where a code and a method of the client share a name in the source
  (\<open>FirmwareQuery\<close>, \<open>ReportDigital\<close>, ...), the code carries the suffix \<open>_code\<close> here.
\<close>

definition ProtocolVersion_code :: byte where "ProtocolVersion_code = 0xF9"
definition SystemReset :: byte where "SystemReset = 0xFF"
definition DigitalMessage :: byte where "DigitalMessage = 0x90"
definition DigitalMessageRangeStart :: byte where "DigitalMessageRangeStart = 0x90"
definition DigitalMessageRangeEnd :: byte where "DigitalMessageRangeEnd = 0x9F"
definition AnalogMessage :: byte where "AnalogMessage = 0xE0"
definition AnalogMessageRangeStart :: byte where "AnalogMessageRangeStart = 0xE0"
definition AnalogMessageRangeEnd :: byte where "AnalogMessageRangeEnd = 0xEF"
definition ReportAnalog_code :: byte where "ReportAnalog_code = 0xC0"
definition ReportDigital_code :: byte where "ReportDigital_code = 0xD0"
definition PinMode :: byte where "PinMode = 0xF4"
definition StartSysex :: byte where "StartSysex = 0xF0"
definition EndSysex :: byte where "EndSysex = 0xF7"
definition CapabilityQuery_code :: byte where "CapabilityQuery_code = 0x6B"
definition CapabilityResponse :: byte where "CapabilityResponse = 0x6C"
definition PinStateQuery_code :: byte where "PinStateQuery_code = 0x6D"
definition PinStateResponse :: byte where "PinStateResponse = 0x6E"
definition AnalogMappingQuery_code :: byte where "AnalogMappingQuery_code = 0x69"
definition AnalogMappingResponse :: byte where "AnalogMappingResponse = 0x6A"
definition StringData :: byte where "StringData = 0x71"
definition I2CReply :: byte where "I2CReply = 0x77"
definition FirmwareQuery_code :: byte where "FirmwareQuery_code = 0x79"

lemmas modes_defs = Input_def Output_def Analog_def Pwm_def Servo_def

lemmas codes_defs =
  ProtocolVersion_code_def SystemReset_def DigitalMessage_def DigitalMessageRangeStart_def
  DigitalMessageRangeEnd_def AnalogMessage_def AnalogMessageRangeStart_def
  AnalogMessageRangeEnd_def ReportAnalog_code_def ReportDigital_code_def PinMode_def
  StartSysex_def EndSysex_def CapabilityQuery_code_def CapabilityResponse_def
  PinStateQuery_code_def PinStateResponse_def AnalogMappingQuery_code_def
  AnalogMappingResponse_def StringData_def I2CReply_def FirmwareQuery_code_def

subsection \<open>Data\<close>

record Pin =
  SupportedModes :: "int list"
  Mode :: int
  Value :: int
  State :: int
  AnalogChannel :: int

record I2cReply =
  Address :: int
  Register :: int
  Data :: "byte list"

text \<open>
  The transport is an \<open>io.ReadWriteCloser\<close> that the caller supplies. What its
  \<open>Read\<close> will return, call after call, is a list of segments: some bytes (none, for
  a \<open>Read\<close> that returns 0) together with no error, with the error \<open>EOF\<close> or with
  another error. A \<open>Read\<close> takes as many bytes of the first segment as its buffer
  holds; when the segment has more, it returns no error and leaves the other bytes and
  the error of the segment for the next call. After the last segment \<open>Read\<close> does not
  return. The model also holds every buffer handed to a successful \<open>Write\<close>, oldest
  first, and whether \<open>Write\<close> fails.
\<close>

datatype rerr = EOF | Failure

datatype segment = Seg "byte list" "rerr option"

record Conn =
  incoming :: "segment list"
  written :: "byte list list"
  wfail :: bool

text \<open>
  The client. \<open>connection\<close> is \<open>None\<close> for Go's nil interface. The channels of the
  source are not part of the state: what \<open>process\<close> offers on them is returned as a list
  of events (see \<open>event\<close> below).
\<close>

record Client =
  pins :: "Pin list"
  firmwareName :: string
  protocolVersion :: string
  connected :: bool
  connection :: "Conn option"
  analogPins :: "nat list"

text \<open>
  Errors are values. \<open>WriteFailed\<close> and \<open>ReadError\<close> are errors of the transport
  that the code returns; the others are run-time panics: a method call on the nil
  connection, an index out of range (with the index), a slice expression with bounds out
  of range. A failed call gives the error together with the client as the call leaves
  it, since what was stored before a panic stays stored.
\<close>

datatype error = WriteFailed | ReadError rerr | PanicNil | PanicIndex int | PanicSlice

type_synonym 'a result = "(error \<times> Client) + 'a"

text \<open>
  Every send of \<open>process\<close> is a \<open>select\<close> with a \<open>default\<close> branch: the value is
  offered, and dropped when nobody is receiving. An event is one such offer: on one of
  the four \<open>boolChan\<close> channels, on \<open>pinReportChan[pin]\<close>, on \<open>pinStateChan[pin]\<close>, on
  \<open>i2cChan\<close> or on \<open>stringDataChan\<close>.
\<close>

datatype event =
  BoolSignal string
  | PinReport nat Pin
  | PinStateReport nat Pin
  | I2cReplyEvent I2cReply
  | StringDataEvent string

definition New :: Client where
  "New = \<lparr>pins = [], firmwareName = '''', protocolVersion = '''', connected = False,
          connection = None, analogPins = []\<rparr>"

definition index_ok :: "'a list \<Rightarrow> int \<Rightarrow> bool" where
  "index_ok xs i \<longleftrightarrow> 0 \<le> i \<and> i < int (length xs)"

definition string_of_bytes :: "byte list \<Rightarrow> string" where
  "string_of_bytes bs = map (\<lambda>b. char_of (unat b)) bs"

text \<open>The decimal digits of a byte, as \<open>%v\<close> prints it.\<close>

definition digit :: "nat \<Rightarrow> char" where
  "digit d = ''0123456789'' ! d"

definition sprint_byte :: "byte \<Rightarrow> string" where
  "sprint_byte x =
     (let n = unat x in
      if n < 10 then [digit n]
      else if n < 100 then [digit (n div 10), digit (n mod 10)]
      else [digit (n div 100), digit (n div 10 mod 10), digit (n mod 10)])"

subsection \<open>Writing\<close>

text \<open>The method \<open>write\<close> of the source; its name is a keyword of Isabelle.\<close>

definition write_conn :: "byte list \<Rightarrow> Client \<Rightarrow> Client result" where
  "write_conn data b =
     (case connection b of
        None \<Rightarrow> Inl (PanicNil, b)
      | Some k \<Rightarrow>
          if wfail k then Inl (WriteFailed, b)
          else Inr (b\<lparr>connection := Some (k\<lparr>written := written k @ [data]\<rparr>)\<rparr>))"

definition sysex_bytes :: "byte list \<Rightarrow> byte list" where
  "sysex_bytes data = [StartSysex] @ (data @ [EndSysex])"

definition writeSysex :: "byte list \<Rightarrow> Client \<Rightarrow> Client result" where
  "writeSysex data b = write_conn (sysex_bytes data) b"

definition Reset :: "Client \<Rightarrow> Client result" where
  "Reset b = write_conn [SystemReset] b"


text \<open>
  The loop of \<open>DigitalWrite\<close> over the eight pins of the port; \<open>8*port+i\<close> is computed
  on bytes. It ends with the mask, or with the first index that is not in the table.
\<close>

function DigitalWrite_loop :: "Pin list \<Rightarrow> byte \<Rightarrow> nat \<Rightarrow> byte \<Rightarrow> int + byte" where
  "DigitalWrite_loop ps port i portValue =
     (if i < 8 then
        (if unat (8 * port + of_nat i) < length ps
         then DigitalWrite_loop ps port (i + 1)
                (if Value (ps ! unat (8 * port + of_nat i)) \<noteq> 0
                 then portValue OR push_bit i 1 else portValue)
         else Inl (uint (8 * port + of_nat i)))
      else Inr portValue)"
  by pat_completeness auto
termination
  by (relation "measure (\<lambda>(ps, port, i, portValue). 8 - i)") auto

declare DigitalWrite_loop.simps [simp del]

text \<open>
  \<open>DigitalWrite\<close>. The port is \<open>byte(math.Floor(float64(pin) / 8))\<close>: for a pin
  from 0 to 2047 this is the byte of \<open>pin div 8\<close>; a negative pin fails the index
  check in any case, and what Go makes of a quotient above 255 is left to the compiler.
\<close>

definition DigitalWrite :: "int \<Rightarrow> int \<Rightarrow> Client \<Rightarrow> Client result" where
  "DigitalWrite pin val b =
     (let port = (word_of_int (pin div 8) :: byte) in
      if \<not> index_ok (pins b) pin then Inl (PanicIndex pin, b)
      else
        (let b1 = b\<lparr>pins := (pins b)[nat pin := (pins b ! nat pin)\<lparr>Value := val\<rparr>]\<rparr> in
         case DigitalWrite_loop (pins b1) port 0 0 of
           Inl idx \<Rightarrow> Inl (PanicIndex idx, b1)
         | Inr portValue \<Rightarrow>
             write_conn [DigitalMessage OR port, portValue AND 0x7F,
                         drop_bit 7 portValue AND 0x7F] b1))"

text \<open>
  The two data bytes \<open>byte(value & 0x7F)\<close>, \<open>byte((value >> 7) & 0x7F)\<close> that
  \<open>AnalogWrite\<close> sends, and the value \<open>uint(buf[1]) | uint(buf[2])<<7\<close> that \<open>process\<close>
  reads from an analog message.
\<close>

definition pack14 :: "int \<Rightarrow> byte \<times> byte" where
  "pack14 v = (word_of_int (v AND 0x7F), word_of_int (drop_bit 7 v AND 0x7F))"

definition unpack14 :: "byte \<Rightarrow> byte \<Rightarrow> int" where
  "unpack14 lo hi = uint lo OR push_bit 7 (uint hi)"

definition AnalogWrite :: "int \<Rightarrow> int \<Rightarrow> Client \<Rightarrow> Client result" where
  "AnalogWrite pin val b =
     (case write_conn [AnalogMessage OR word_of_int pin, fst (pack14 val), snd (pack14 val)] b of
        Inl err \<Rightarrow> Inl err
      | Inr b1 \<Rightarrow>
          if index_ok (pins b1) pin
          then Inr (b1\<lparr>pins := (pins b1)[nat pin := (pins b1 ! nat pin)\<lparr>Value := val\<rparr>]\<rparr>)
          else Inl (PanicIndex pin, b1))"

text \<open>
  The queries write their request and then replace their channel in \<open>boolChan\<close>; the
  channel they return is nil when the write failed.
\<close>

definition FirmwareQuery :: "Client \<Rightarrow> Client result" where
  "FirmwareQuery b = writeSysex [FirmwareQuery_code] b"

definition ProtocolVersionQuery :: "Client \<Rightarrow> Client result" where
  "ProtocolVersionQuery b = write_conn [ProtocolVersion_code] b"

definition CapabilityQuery :: "Client \<Rightarrow> Client result" where
  "CapabilityQuery b = writeSysex [CapabilityQuery_code] b"

definition AnalogMappingQuery :: "Client \<Rightarrow> Client result" where
  "AnalogMappingQuery b = writeSysex [AnalogMappingQuery_code] b"

definition togglePinReporting :: "int \<Rightarrow> int \<Rightarrow> byte \<Rightarrow> Client \<Rightarrow> Client result" where
  "togglePinReporting pin state mode b =
     (let state1 = (if state \<noteq> 0 then 1 else 0 :: int) in
      write_conn [mode OR word_of_int pin, word_of_int state1] b)"

definition ReportDigital :: "int \<Rightarrow> int \<Rightarrow> Client \<Rightarrow> Client result" where
  "ReportDigital pin state b = togglePinReporting pin state ReportDigital_code b"

definition ReportAnalog :: "int \<Rightarrow> int \<Rightarrow> Client \<Rightarrow> Client result" where
  "ReportAnalog pin state b = togglePinReporting pin state ReportAnalog_code b"

subsection \<open>Reading\<close>

text \<open>
  One call of \<open>Read\<close> with a buffer of \<open>n\<close> bytes: the bytes it puts into the
  buffer, the error it returns, and the transport after it. \<open>None\<close> is a call that
  does not return.
\<close>

definition conn_Read :: "nat \<Rightarrow> Conn \<Rightarrow> (byte list \<times> rerr option \<times> Conn) option" where
  "conn_Read n k =
     (case incoming k of
        [] \<Rightarrow> None
      | Seg bs e # segs \<Rightarrow>
          if length bs \<le> n then Some (bs, e, k\<lparr>incoming := segs\<rparr>)
          else Some (take n bs, None, k\<lparr>incoming := Seg (drop n bs) e # segs\<rparr>))"

definition weight :: "segment list \<Rightarrow> nat" where
  "weight segs = sum_list (map (\<lambda>s. case s of Seg bs e \<Rightarrow> Suc (length bs)) segs)"

text \<open>
  The loop of \<open>read\<close>. Each turn makes a fresh buffer \<open>tmp\<close> of \<open>length\<close> bytes and
  calls \<open>Read\<close>. An error other than \<open>EOF\<close> ends the loop at once. When \<open>Read\<close>
  has given \<open>i > 0\<close> bytes, the whole of \<open>tmp\<close> is appended to \<open>buf\<close>, the \<open>i\<close>
  bytes and the zeros behind them, and \<open>length\<close> goes down by \<open>i\<close>. \<open>err\<close> is the
  error of the last \<open>Read\<close>; the loop returns it with \<open>buf\<close>, so that an \<open>EOF\<close>
  that came with the last bytes is the error of \<open>read\<close>.
\<close>

function read_loop :: "nat \<Rightarrow> byte list \<Rightarrow> rerr option \<Rightarrow> Conn
    \<Rightarrow> (rerr \<times> Conn + byte list \<times> Conn) option" where
  "read_loop len buf err k =
     (if len > 0 then
        (case conn_Read len k of
           None \<Rightarrow> None
         | Some (got, e, k1) \<Rightarrow>
             if e = Some Failure then Some (Inl (Failure, k1))
             else if length got > 0
             then read_loop (len - length got) (buf @ got @ replicate (len - length got) 0) e k1
             else read_loop len buf e k1)
      else (case err of None \<Rightarrow> Some (Inr (buf, k)) | Some e \<Rightarrow> Some (Inl (e, k))))"
  by pat_completeness auto
termination
  by (relation "measure (\<lambda>(len, buf, err, k). weight (incoming k))")
     (auto simp: conn_Read_def weight_def split: list.splits segment.splits if_splits)

declare read_loop.simps [simp del]

definition read :: "nat \<Rightarrow> Client \<Rightarrow> (byte list \<times> Client) result option" where
  "read len b =
     (if len = 0 then Some (Inr ([], b))
      else
        (case connection b of
           None \<Rightarrow> Some (Inl (PanicNil, b))
         | Some k \<Rightarrow>
             (case read_loop len [] None k of
                None \<Rightarrow> None
              | Some (Inl (e, k1)) \<Rightarrow> Some (Inl (ReadError e, b\<lparr>connection := Some k1\<rparr>))
              | Some (Inr (buf, k1)) \<Rightarrow> Some (Inr (buf, b\<lparr>connection := Some k1\<rparr>)))))"

text \<open>
  The loop of \<open>process\<close> that reads one byte at a time up to \<open>EndSysex\<close>. It does
  not return (\<open>None\<close>) when \<open>read\<close> does not.
\<close>

partial_function (option) sysex_loop :: "byte list \<Rightarrow> Client \<Rightarrow> (byte list \<times> Client) result option" where
  "sysex_loop currentBuffer b =
     (case read 1 b of
        None \<Rightarrow> None
      | Some (Inl err) \<Rightarrow> Some (Inl err)
      | Some (Inr (buf, b1)) \<Rightarrow>
          if hd buf = EndSysex then Some (Inr (currentBuffer @ [hd buf], b1))
          else sysex_loop (currentBuffer @ [hd buf]) b1)"

subsection \<open>The cases of \<open>process\<close>\<close>

text \<open>
  The digital message: the loop over the eight bits of the port. \<open>8*byte(port)+byte(i)\<close>
  is computed on bytes; a pin is updated only when it is in the table and its mode is
  \<open>Input\<close>.
\<close>

function digital_loop :: "byte \<Rightarrow> byte \<Rightarrow> nat \<Rightarrow> Pin list \<Rightarrow> event list
    \<Rightarrow> Pin list \<times> event list" where
  "digital_loop port portValue i ps evs =
     (if i < 8 then
        (let pinNumber = unat (8 * port + of_nat i) in
         if length ps > pinNumber \<and> Mode (ps ! pinNumber) = Input
         then
           (let p = (ps ! pinNumber)
                      \<lparr>Value := uint (drop_bit (unat (of_nat i AND 0x07 :: byte)) portValue AND 0x01)\<rparr>
            in digital_loop port portValue (i + 1) (ps[pinNumber := p])
                 (evs @ [PinReport pinNumber p]))
         else digital_loop port portValue (i + 1) ps evs)
      else (ps, evs))"
  by pat_completeness auto
termination
  by (relation "measure (\<lambda>(port, portValue, i, ps, evs). 8 - i)") auto

declare digital_loop.simps [simp del]

text \<open>
  The capability response: \<open>0x7F\<close> closes a pin with the modes gathered so far; of the
  other bytes every second one, starting with the first after a \<open>0x7F\<close>, sets a bit of
  \<open>supportedModes\<close>.
\<close>

definition modes_of :: "64 word \<Rightarrow> int list" where
  "modes_of supportedModes =
     filter (\<lambda>mode. supportedModes AND push_bit (nat mode) 1 \<noteq> 0)
       [Input, Output, Analog, Pwm, Servo]"

fun capability_loop :: "byte list \<Rightarrow> Pin list \<Rightarrow> 64 word \<Rightarrow> int \<Rightarrow> Pin list" where
  "capability_loop [] ps supportedModes n = ps"
| "capability_loop (val # vals) ps supportedModes n =
     (if val = 127
      then capability_loop vals
             (ps @ [\<lparr>SupportedModes = modes_of supportedModes, Mode = Output, Value = 0,
                      State = 0, AnalogChannel = 0\<rparr>]) 0 0
      else capability_loop vals ps
             (if n = 0 then supportedModes OR push_bit (unat val) 1 else supportedModes)
             (n XOR 1))"

text \<open>
  The analog mapping response: one byte for each pin, from pin 0 on. The loop ends with
  the pins and the analog pins, and whether an index left the table (\<open>Some\<close> of it).
\<close>

fun analog_mapping_loop :: "byte list \<Rightarrow> nat \<Rightarrow> Pin list \<Rightarrow> nat list
    \<Rightarrow> int option \<times> Pin list \<times> nat list" where
  "analog_mapping_loop [] pinIndex ps aps = (None, ps, aps)"
| "analog_mapping_loop (val # vals) pinIndex ps aps =
     (if pinIndex < length ps
      then analog_mapping_loop vals (pinIndex + 1)
             (ps[pinIndex := (ps ! pinIndex)\<lparr>AnalogChannel := uint val\<rparr>])
             (if val \<noteq> 127 then aps @ [pinIndex] else aps)
      else (Some (int pinIndex), ps, aps))"

text \<open>
  The I2C reply: the loop \<open>for i := 8; i < len(currentBuffer); i = i + 2\<close> that adds
  one byte of data for every further pair.
\<close>

function i2c_loop :: "byte list \<Rightarrow> nat \<Rightarrow> byte list \<Rightarrow> byte list" where
  "i2c_loop currentBuffer i dat =
     (if i < length currentBuffer then
        (if currentBuffer ! i = 0xF7 then dat
         else if i + 2 > length currentBuffer then dat
         else i2c_loop currentBuffer (i + 2)
                (dat @ [currentBuffer ! i OR push_bit 7 (currentBuffer ! (i + 1))]))
      else dat)"
  by pat_completeness auto
termination
  by (relation "measure (\<lambda>(currentBuffer, i, dat). length currentBuffer - i)") auto

declare i2c_loop.simps [simp del]

text \<open>
  The inner \<open>switch\<close> of \<open>process\<close> on the command byte of a sysex message.
  \<open>currentBuffer\<close> is the whole message, from \<open>StartSysex\<close> to \<open>EndSysex\<close>; it has
  at least four bytes when \<open>process\<close> gets here.

  \<open>pins\<close> is emptied before the slice expression of the capability case is evaluated.
\<close>

definition CapabilityResponse_case :: "byte list \<Rightarrow> Client \<Rightarrow> (Client \<times> event list) result" where
  "CapabilityResponse_case currentBuffer b =
     (if length currentBuffer < 7 then Inl (PanicSlice, b\<lparr>pins := []\<rparr>)
      else Inr (b\<lparr>pins := capability_loop
                            (take (length currentBuffer - 5 - 2) (drop 2 currentBuffer)) [] 0 0\<rparr>,
                [BoolSignal ''CapabilityQuery'']))"

text \<open>
  The analog mapping case slices \<open>currentBuffer[2 : len(b.pins)-1]\<close>. Go checks the
  upper bound of a slice expression against the capacity of the buffer, not its length:
  a bound above the length reaches into the slack, the bytes of the backing array behind
  the buffer. How much slack \<open>append\<close> has left there is the runtime's choice, so
  the slack is a parameter. \<open>analogPins\<close> is emptied before the slice expression is
  evaluated.
\<close>

definition AnalogMappingResponse_case :: "byte list \<Rightarrow> byte list \<Rightarrow> Client
    \<Rightarrow> (Client \<times> event list) result" where
  "AnalogMappingResponse_case slack currentBuffer b =
     (if length (pins b) < 3 then Inl (PanicSlice, b\<lparr>analogPins := []\<rparr>)
      else if length (pins b) - 1 > length currentBuffer + length slack
      then Inl (PanicSlice, b\<lparr>analogPins := []\<rparr>)
      else
        (case analog_mapping_loop
                (take (length (pins b) - 1 - 2) (drop 2 (currentBuffer @ slack))) 0 (pins b) [] of
           (Some idx, ps, aps) \<Rightarrow> Inl (PanicIndex idx, b\<lparr>pins := ps, analogPins := aps\<rparr>)
         | (None, ps, aps) \<Rightarrow>
             Inr (b\<lparr>pins := ps, analogPins := aps\<rparr>, [BoolSignal ''AnalogMappingQuery''])))"

text \<open>
  The pin state case. The mode is stored before \<open>currentBuffer[4]\<close> is read; the two
  further bytes of the state are read only when the message is long enough.
\<close>

definition PinStateResponse_case :: "byte list \<Rightarrow> Client \<Rightarrow> (Client \<times> event list) result" where
  "PinStateResponse_case currentBuffer b =
     (if length currentBuffer \<le> 2 then Inl (PanicIndex 2, b)
      else if length currentBuffer \<le> 3 then Inl (PanicIndex 3, b)
      else
        (let pin = unat (currentBuffer ! 2) in
         if length (pins b) \<le> pin then Inl (PanicIndex (int pin), b)
         else
           (let p0 = (pins b ! pin)\<lparr>Mode := uint (currentBuffer ! 3)\<rparr> in
            if length currentBuffer \<le> 4
            then Inl (PanicIndex 4, b\<lparr>pins := (pins b)[pin := p0]\<rparr>)
            else
              (let p1 = p0\<lparr>State := uint (currentBuffer ! 4)\<rparr>;
                   p2 = (if length currentBuffer > 6
                         then p1\<lparr>State := State p1 OR push_bit 7 (uint (currentBuffer ! 5))\<rparr>
                         else p1);
                   p3 = (if length currentBuffer > 7
                         then p2\<lparr>State := State p2 OR push_bit 14 (uint (currentBuffer ! 6))\<rparr>
                         else p2)
               in Inr (b\<lparr>pins := (pins b)[pin := p3]\<rparr>, [PinStateReport pin p3])))))"

text \<open>
  The I2C reply case reads \<open>currentBuffer[2]\<close> to \<open>currentBuffer[7]\<close> from left to
  right, for the address, the register and the first byte of data.
\<close>

definition I2CReply_case :: "byte list \<Rightarrow> Client \<Rightarrow> (Client \<times> event list) result" where
  "I2CReply_case currentBuffer b =
     (if length currentBuffer < 8 then Inl (PanicIndex (max 2 (int (length currentBuffer))), b)
      else
        (let reply = \<lparr>Address = uint (currentBuffer ! 2 OR push_bit 7 (currentBuffer ! 3)),
                      Register = uint (currentBuffer ! 4 OR push_bit 7 (currentBuffer ! 5)),
                      Data = i2c_loop currentBuffer 8
                               [currentBuffer ! 6 OR push_bit 7 (currentBuffer ! 7)]\<rparr>
         in Inr (b, [I2cReplyEvent reply])))"

definition FirmwareQuery_case :: "byte list \<Rightarrow> Client \<Rightarrow> (Client \<times> event list) result" where
  "FirmwareQuery_case currentBuffer b =
     (if length currentBuffer < 5 then Inl (PanicSlice, b)
      else
        (let name = filter (\<lambda>val. val \<noteq> 0)
                      (take (length currentBuffer - 1 - 4) (drop 4 currentBuffer))
         in Inr (b\<lparr>firmwareName := string_of_bytes name\<rparr>, [BoolSignal ''FirmwareQuery''])))"

definition StringData_case :: "byte list \<Rightarrow> Client \<Rightarrow> (Client \<times> event list) result" where
  "StringData_case currentBuffer b =
     (if length currentBuffer < 3 then Inl (PanicSlice, b)
      else Inr (b, [StringDataEvent (string_of_bytes (butlast (drop 2 currentBuffer)))]))"

definition process_sysex :: "byte list \<Rightarrow> byte list \<Rightarrow> Client \<Rightarrow> (Client \<times> event list) result" where
  "process_sysex slack currentBuffer b =
     (if length currentBuffer < 2 then Inl (PanicIndex 1, b)
      else
        (let command = currentBuffer ! 1 in
         if command = CapabilityResponse then CapabilityResponse_case currentBuffer b
         else if command = AnalogMappingResponse
         then AnalogMappingResponse_case slack currentBuffer b
         else if command = PinStateResponse then PinStateResponse_case currentBuffer b
         else if command = I2CReply then I2CReply_case currentBuffer b
         else if command = FirmwareQuery_code then FirmwareQuery_case currentBuffer b
         else if command = StringData then StringData_case currentBuffer b
         else Inr (b, [])))"

text \<open>The analog message: the channel is looked up in \<open>analogPins\<close>.\<close>

definition analog_case :: "byte list \<Rightarrow> Client \<Rightarrow> Client \<times> event list" where
  "analog_case buf b =
     (let val = unpack14 (buf ! 1) (buf ! 2);
          pin = unat (buf ! 0 AND 0x0F)
      in if length (analogPins b) > pin \<and> length (pins b) > analogPins b ! pin
         then
           (let p = (pins b ! (analogPins b ! pin))\<lparr>Value := val\<rparr>
            in (b\<lparr>pins := (pins b)[analogPins b ! pin := p]\<rparr>,
                [PinReport (analogPins b ! pin) p]))
         else (b, []))"

definition digital_case :: "byte list \<Rightarrow> Client \<Rightarrow> Client \<times> event list" where
  "digital_case buf b =
     (let port = buf ! 0 AND 0x0F;
          portValue = buf ! 1 OR push_bit 7 (buf ! 2);
          (ps, evs) = digital_loop port portValue 0 (pins b) []
      in (b\<lparr>pins := ps\<rparr>, evs))"

text \<open>
  The first half of \<open>process\<close>: \<open>read(3)\<close>, and after \<open>StartSysex\<close> the bytes up to
  \<open>EndSysex\<close>. The result is \<open>buf\<close>, or \<open>currentBuffer\<close> for a sysex message.
\<close>

definition read_message :: "Client \<Rightarrow> (byte list \<times> Client) result option" where
  "read_message b =
     (case read 3 b of
        None \<Rightarrow> None
      | Some (Inl err) \<Rightarrow> Some (Inl err)
      | Some (Inr (buf, b1)) \<Rightarrow>
          if StartSysex = buf ! 0 then sysex_loop buf b1 else Some (Inr (buf, b1)))"

text \<open>
  The second half: the outer \<open>switch\<close> on the message type. \<open>slack\<close> is what lies
  behind \<open>currentBuffer\<close> in its backing array.
\<close>

definition dispatch :: "byte list \<Rightarrow> byte list \<Rightarrow> Client \<Rightarrow> (Client \<times> event list) result" where
  "dispatch slack buf b =
     (let messageType = buf ! 0 in
      if ProtocolVersion_code = messageType
      then Inr (b\<lparr>protocolVersion := sprint_byte (buf ! 1) @ ''.'' @ sprint_byte (buf ! 2)\<rparr>,
                [BoolSignal ''ProtocolVersion''])
      else if AnalogMessageRangeStart \<le> messageType \<and> AnalogMessageRangeEnd \<ge> messageType
      then Inr (analog_case buf b)
      else if DigitalMessageRangeStart \<le> messageType \<and> DigitalMessageRangeEnd \<ge> messageType
      then Inr (digital_case buf b)
      else if StartSysex = messageType
      then process_sysex slack buf b
      else Inr (b, []))"

text \<open>
  \<open>process\<close>: \<open>None\<close> when it does not return, \<open>Some (Inl (err, b1))\<close> when it
  stops with an error or a panic, otherwise the new client and what it offered on the
  channels.
\<close>

definition process :: "byte list \<Rightarrow> Client \<Rightarrow> (Client \<times> event list) result option" where
  "process slack b =
     (case read_message b of
        None \<Rightarrow> None
      | Some (Inl err) \<Rightarrow> Some (Inl err)
      | Some (Inr (buf, b1)) \<Rightarrow> Some (dispatch slack buf b1))"

subsection \<open>The replies of an Arduino Uno, from client_test.go\<close>

definition testCapabilitiesResponse :: "byte list" where
  "testCapabilitiesResponse =
     [240, 108, 127, 127, 0, 1, 1, 1, 4, 14, 127, 0, 1, 1, 1, 3,
      8, 4, 14, 127, 0, 1, 1, 1, 4, 14, 127, 0, 1, 1, 1, 3, 8, 4, 14, 127, 0, 1,
      1, 1, 3, 8, 4, 14, 127, 0, 1, 1, 1, 4, 14, 127, 0, 1, 1, 1, 4, 14, 127, 0,
      1, 1, 1, 3, 8, 4, 14, 127, 0, 1, 1, 1, 3, 8, 4, 14, 127, 0, 1, 1, 1, 3, 8,
      4, 14, 127, 0, 1, 1, 1, 4, 14, 127, 0, 1, 1, 1, 4, 14, 127, 0, 1, 1, 1, 2,
      10, 127, 0, 1, 1, 1, 2, 10, 127, 0, 1, 1, 1, 2, 10, 127, 0, 1, 1, 1, 2, 10,
      127, 0, 1, 1, 1, 2, 10, 6, 1, 127, 0, 1, 1, 1, 2, 10, 6, 1, 127, 247]"

definition testAnalogMappingResponse :: "byte list" where
  "testAnalogMappingResponse =
     [240, 106, 127, 127, 127, 127, 127, 127, 127, 127, 127, 127,
      127, 127, 127, 127, 0, 1, 2, 3, 4, 5, 247]"

text \<open>
  A client on a transport that has the given bytes ready for one \<open>Read\<close>, as the
  \<open>readWriteCloser\<close> of the test has them, and that takes every write.
\<close>

definition on_wire :: "byte list \<Rightarrow> Client \<Rightarrow> Client" where
  "on_wire bs b = b\<lparr>connection := Some \<lparr>incoming = [Seg bs None], written = [], wfail = False\<rparr>\<rparr>"

text \<open>A pin as the capability response creates it, with the given supported modes.\<close>

definition fresh_pin :: "int list \<Rightarrow> Pin" where
  "fresh_pin modes =
     \<lparr>SupportedModes = modes, Mode = Output, Value = 0, State = 0, AnalogChannel = 0\<rparr>"




section \<open>Properties\<close>

subsection \<open>The 14-bit packing\<close>

lemma and_0x7F_take_bit: "(v::int) AND 0x7F = take_bit 7 v"
proof -
  have "(0x7F::int) = mask 7"
    by (simp add: mask_eq_exp_minus_1)
  then show ?thesis
    by (simp add: take_bit_eq_mask)
qed

lemma uint_byte_take_bit_7: "uint (word_of_int (take_bit 7 x) :: byte) = take_bit 7 x"
  by (simp add: uint_word_of_int_eq take_bit_take_bit min_def)

text \<open>
  C3. For every integer \<open>v\<close> in \<open>[0, 16383]\<close>, the two data bytes that the request
  encoders send for \<open>v\<close>, decoded as the frame dispatcher decodes them, give \<open>v\<close> again.
\<close>

theorem pack14_roundtrip:
  assumes "0 \<le> v" and "v \<le> 16383"
  shows "unpack14 (fst (pack14 v)) (snd (pack14 v)) = v"
proof -
  have v14: "take_bit 14 v = v"
    using assms by (simp add: take_bit_int_eq_self)
  have "unpack14 (fst (pack14 v)) (snd (pack14 v))
        = take_bit 7 v OR push_bit 7 (take_bit 7 (drop_bit 7 v))"
    by (simp add: unpack14_def pack14_def and_0x7F_take_bit uint_byte_take_bit_7)
  also have "\<dots> = take_bit 14 v"
    by (rule bit_eqI) (auto simp: bit_simps)
  finally show ?thesis
    using v14 by simp
qed

theorem pack14_roundtrip_witness:
  "(0::int) \<le> 675 \<and> (675::int) \<le> 16383 \<and> pack14 675 = (0x23, 0x05)
   \<and> unpack14 (fst (pack14 675)) (snd (pack14 675)) = 675"
  using pack14_roundtrip [of 675] by (simp add: pack14_def)

subsection \<open>Reading a sysex message\<close>

text \<open>
  \<open>read(1)\<close> gives the next byte of the stream, however the transport cuts it
  into segments, as long as every \<open>Read\<close> gives bytes and no error, or no bytes and
  at most the error \<open>EOF\<close>; \<open>read(3)\<close> gives the next three bytes when they arrive
  in one \<open>Read\<close> without an error.
\<close>

lemma replicate_small: "replicate 1 x = [x]" "replicate 2 x = [x, x]"
  by (simp_all add: numeral_2_eq_2)

lemmas eval_read =
  read_def read_loop.simps conn_Read_def sysex_loop.simps read_message_def replicate_small










subsection \<open>SetPinMode\<close>




subsection \<open>DigitalWrite\<close>

lemma DigitalWrite_loop_panics:
  assumes "i \<le> j" and "j < 8" and "length ps \<le> unat (8 * port + of_nat j)"
    and "\<forall>m. i \<le> m \<and> m < j \<longrightarrow> unat (8 * port + of_nat m) < length ps"
  shows "DigitalWrite_loop ps port i portValue = Inl (uint (8 * port + of_nat j))"
  using assms
proof (induction ps port i portValue rule: DigitalWrite_loop.induct)
  case (1 ps port i portValue)
  show ?case
  proof (cases "i = j")
    case True
    with "1.prems" show ?thesis
      by (subst DigitalWrite_loop.simps) simp
  next
    case False
    with "1.prems" have lt: "i + 1 \<le> j" and i8: "i < 8"
      and here: "unat (8 * port + of_nat i) < length ps"
      by auto
    from "1.prems" have later: "\<forall>m. i + 1 \<le> m \<and> m < j \<longrightarrow> unat (8 * port + of_nat m) < length ps"
      by auto
    from "1.IH" [OF i8 here lt "1.prems"(2,3) later] i8 here show ?thesis
      by (subst DigitalWrite_loop.simps) simp
  qed
qed

lemma bit_or_one_shifted:
  "bit (pv OR push_bit i 1 :: byte) m \<longleftrightarrow> bit pv m \<or> (m = i \<and> i < 8)"
  "bit (pv OR 2 ^ i :: byte) m \<longleftrightarrow> bit pv m \<or> (m = i \<and> i < 8)"
  by (auto simp: bit_simps)

lemma DigitalWrite_loop_mask:
  assumes "\<forall>m. i \<le> m \<and> m < 8 \<longrightarrow> unat (8 * port + of_nat m) < length ps"
    and "\<forall>m. i \<le> m \<longrightarrow> \<not> bit portValue m"
  shows "\<exists>mask. DigitalWrite_loop ps port i portValue = Inr mask
           \<and> (\<forall>m<8. bit mask m \<longleftrightarrow>
                 (if m < i then bit portValue m
                  else Value (ps ! unat (8 * port + of_nat m)) \<noteq> 0))"
  using assms
proof (induction ps port i portValue rule: DigitalWrite_loop.induct)
  case (1 ps port i portValue)
  show ?case
  proof (cases "i < 8")
    case False
    then show ?thesis
      by (subst DigitalWrite_loop.simps) simp
  next
    case True
    let ?pv = "if Value (ps ! unat (8 * port + of_nat i)) \<noteq> 0
               then portValue OR push_bit i 1 else portValue"
    from True "1.prems" have here: "unat (8 * port + of_nat i) < length ps"
      by simp
    from "1.prems" have later: "\<forall>m. i + 1 \<le> m \<and> m < 8 \<longrightarrow> unat (8 * port + of_nat m) < length ps"
      by simp
    have clean: "\<forall>m. i + 1 \<le> m \<longrightarrow> \<not> bit ?pv m"
      using "1.prems"(2) by (auto simp: bit_or_one_shifted)
    from "1.IH" [OF True here later clean] obtain mask
      where run: "DigitalWrite_loop ps port (i + 1) ?pv = Inr mask"
        and bits: "\<forall>m<8. bit mask m \<longleftrightarrow>
                     (if m < i + 1 then bit ?pv m
                      else Value (ps ! unat (8 * port + of_nat m)) \<noteq> 0)"
      by blast
    have "DigitalWrite_loop ps port i portValue = Inr mask"
      using True here run by (subst DigitalWrite_loop.simps) simp
    moreover have "bit mask m \<longleftrightarrow>
                 (if m < i then bit portValue m
                  else Value (ps ! unat (8 * port + of_nat m)) \<noteq> 0)" if "m < 8" for m
    proof (cases "m = i")
      case True
      with bits that \<open>i < 8\<close> "1.prems"(2) show ?thesis
        by (auto simp: bit_or_one_shifted)
    next
      case False
      with bits that show ?thesis
        by (cases "m < i") (auto simp: bit_or_one_shifted)
    qed
    ultimately show ?thesis
      by blast
  qed
qed

lemma port_index:
  "unat (8 * (word_of_int (int p div 8) :: byte) + of_nat j) = (8 * (p div 8) + j) mod 256"
proof -
  have "int p div 8 = int (p div 8)"
    by (simp add: zdiv_int)
  then have "(word_of_int (int p div 8) :: byte) = of_nat (p div 8)"
    by (simp only: of_int_of_nat_eq)
  then have "(8 * (word_of_int (int p div 8) :: byte) + of_nat j) = of_nat (8 * (p div 8) + j)"
    by (simp only: of_nat_add of_nat_mult of_nat_numeral)
  then show ?thesis
    by (simp only: unat_of_nat) simp
qed

text \<open>
  C10 (as amended). In a table of fewer than 256 pins and for a valid \<open>p\<close>,
  \<open>DigitalWrite\<close> stores the value in pin \<open>p\<close> and then reads the eight pins
  \<open>8 * (p div 8) + i\<close> of the port of \<open>p\<close>. When the table holds the whole port, it
  writes the digital message of the port with the mask whose bit \<open>i\<close> says that the
  value of pin \<open>8 * (p div 8) + i\<close> is not 0. When the table ends inside the port, as
  it does for every \<open>p\<close> of the last port of a table whose length is not a multiple of
  8, it panics with an index out of range, although \<open>p\<close> is a valid index; the index
  of the panic is the length of the table, the first index behind it.
\<close>

theorem DigitalWrite_port:
  assumes "p < length (pins b)" and "length (pins b) < 256"
  shows "(8 * (p div 8) + 8 \<le> length (pins b) \<longrightarrow>
            (\<exists>mask. (\<forall>i<8. bit mask i \<longleftrightarrow>
                        Value ((pins b)[p := (pins b ! p)\<lparr>Value := v\<rparr>] ! (8 * (p div 8) + i)) \<noteq> 0)
                \<and> DigitalWrite (int p) v b
                    = write_conn [DigitalMessage OR of_nat (p div 8), mask AND 0x7F,
                                  drop_bit 7 mask AND 0x7F]
                        (b\<lparr>pins := (pins b)[p := (pins b ! p)\<lparr>Value := v\<rparr>]\<rparr>)))
       \<and> (length (pins b) < 8 * (p div 8) + 8 \<longrightarrow>
            DigitalWrite (int p) v b
            = Inl (PanicIndex (int (length (pins b))),
                   b\<lparr>pins := (pins b)[p := (pins b ! p)\<lparr>Value := v\<rparr>]\<rparr>))
       \<and> (length (pins b) mod 8 \<noteq> 0 \<and> p div 8 = length (pins b) div 8 \<longrightarrow>
            DigitalWrite (int p) v b
            = Inl (PanicIndex (int (length (pins b))),
                   b\<lparr>pins := (pins b)[p := (pins b ! p)\<lparr>Value := v\<rparr>]\<rparr>))"
proof -
  let ?L = "length (pins b)"
  let ?ps = "(pins b)[p := (pins b ! p)\<lparr>Value := v\<rparr>]"
  let ?port = "word_of_int (int p div 8) :: byte"
  have "int p div 8 = int (p div 8)"
    by (simp add: zdiv_int)
  then have port: "?port = of_nat (p div 8)"
    by (simp only: of_int_of_nat_eq)
  have small: "8 * (p div 8) + j < 256" if "j < 8" for j
  proof -
    from assms have "p div 8 \<le> 31"
      by simp
    with that show ?thesis
      by simp
  qed
  have idx: "unat (8 * ?port + of_nat j) = 8 * (p div 8) + j" if "j < 8" for j
    using small [OF that] port_index [of p j] by simp
  have whole: "\<exists>mask. (\<forall>i<8. bit mask i \<longleftrightarrow> Value (?ps ! (8 * (p div 8) + i)) \<noteq> 0)
                \<and> DigitalWrite (int p) v b
                    = write_conn [DigitalMessage OR of_nat (p div 8), mask AND 0x7F,
                                  drop_bit 7 mask AND 0x7F] (b\<lparr>pins := ?ps\<rparr>)"
    if "8 * (p div 8) + 8 \<le> ?L"
  proof -
    from that have "\<forall>m. 0 \<le> m \<and> m < 8 \<longrightarrow> unat (8 * ?port + of_nat m) < length ?ps"
      using idx by simp
    from DigitalWrite_loop_mask [OF this, of 0] obtain mask
      where run: "DigitalWrite_loop ?ps ?port 0 0 = Inr mask"
        and bits: "\<forall>m<8. bit mask m \<longleftrightarrow> Value (?ps ! unat (8 * ?port + of_nat m)) \<noteq> 0"
      by auto
    from bits idx have "\<forall>i<8. bit mask i \<longleftrightarrow> Value (?ps ! (8 * (p div 8) + i)) \<noteq> 0"
      by simp
    moreover have "DigitalWrite (int p) v b
                    = write_conn [DigitalMessage OR ?port, mask AND 0x7F,
                                  drop_bit 7 mask AND 0x7F] (b\<lparr>pins := ?ps\<rparr>)"
      using assms(1) run by (simp add: DigitalWrite_def index_ok_def Let_def)
    then have "DigitalWrite (int p) v b
                    = write_conn [DigitalMessage OR of_nat (p div 8), mask AND 0x7F,
                                  drop_bit 7 mask AND 0x7F] (b\<lparr>pins := ?ps\<rparr>)"
      by (simp only: port)
    ultimately show ?thesis
      by blast
  qed
  have panics: "DigitalWrite (int p) v b = Inl (PanicIndex (int ?L), b\<lparr>pins := ?ps\<rparr>)"
    if "?L < 8 * (p div 8) + 8"
  proof -
    define j where "j = ?L - 8 * (p div 8)"
    have base: "8 * (p div 8) \<le> p"
      by simp
    with assms(1) that have j: "j < 8" "8 * (p div 8) + j = ?L"
      by (simp_all add: j_def)
    have out: "length ?ps \<le> unat (8 * ?port + of_nat j)"
      using idx [OF j(1)] j(2) by simp
    have inside: "\<forall>m. 0 \<le> m \<and> m < j \<longrightarrow> unat (8 * ?port + of_nat m) < length ?ps"
      using idx j by simp
    have "DigitalWrite_loop ?ps ?port 0 0 = Inl (uint (8 * ?port + of_nat j))"
      by (rule DigitalWrite_loop_panics [OF _ j(1) out inside]) simp
    moreover have "uint (8 * ?port + of_nat j) = int ?L"
      by (simp only: uint_nat idx [OF j(1)] j(2))
    ultimately show ?thesis
      using assms(1) by (simp add: DigitalWrite_def index_ok_def Let_def)
  qed
  have partial: "?L < 8 * (p div 8) + 8" if "?L mod 8 \<noteq> 0" "p div 8 = ?L div 8"
  proof -
    have "?L = 8 * (?L div 8) + ?L mod 8"
      by simp
    moreover have "?L mod 8 < 8"
      by simp
    ultimately show ?thesis
      using that(2) by linarith
  qed
  from whole panics partial show ?thesis
    by blast
qed

theorem DigitalWrite_port_witness:
  "(19::nat) < length (pins (on_wire [] (New\<lparr>pins := replicate 20 (fresh_pin [])\<rparr>)))
   \<and> length (pins (on_wire [] (New\<lparr>pins := replicate 20 (fresh_pin [])\<rparr>))) < 256
   \<and> length (pins (on_wire [] (New\<lparr>pins := replicate 20 (fresh_pin [])\<rparr>))) < 8 * (19 div 8) + 8
   \<and> length (pins (on_wire [] (New\<lparr>pins := replicate 20 (fresh_pin [])\<rparr>))) mod 8 \<noteq> 0
   \<and> (19::nat) div 8 = length (pins (on_wire [] (New\<lparr>pins := replicate 20 (fresh_pin [])\<rparr>))) div 8
   \<and> DigitalWrite 19 1 (on_wire [] (New\<lparr>pins := replicate 20 (fresh_pin [])\<rparr>))
       = Inl (PanicIndex 20,
              on_wire [] (New\<lparr>pins := (replicate 20 (fresh_pin []))
                                        [19 := (fresh_pin [])\<lparr>Value := 1\<rparr>]\<rparr>))
   \<and> 8 * ((13::nat) div 8) + 8 \<le> length (pins (on_wire [] (New\<lparr>pins := replicate 20 (fresh_pin [])\<rparr>)))
   \<and> (\<exists>mask. (\<forall>i<8. bit mask i \<longleftrightarrow>
                   Value ((replicate 20 (fresh_pin []))[13 := (fresh_pin [])\<lparr>Value := 1\<rparr>]
                          ! (8 * (13 div 8) + i)) \<noteq> 0)
          \<and> DigitalWrite 13 1 (on_wire [] (New\<lparr>pins := replicate 20 (fresh_pin [])\<rparr>))
              = write_conn [DigitalMessage OR of_nat (13 div 8), mask AND 0x7F,
                            drop_bit 7 mask AND 0x7F]
                  (on_wire [] (New\<lparr>pins := (replicate 20 (fresh_pin []))
                                            [13 := (fresh_pin [])\<lparr>Value := 1\<rparr>]\<rparr>)))"
  using DigitalWrite_port [of 19 "on_wire [] (New\<lparr>pins := replicate 20 (fresh_pin [])\<rparr>)" 1]
    DigitalWrite_port [of 13 "on_wire [] (New\<lparr>pins := replicate 20 (fresh_pin [])\<rparr>)" 1]
  by (simp add: on_wire_def New_def)

text \<open>
  The claim as stated fails. With 257 pins, pin 256 lies in the last, partial port, but
  \<open>8*port\<close> is computed on bytes and is 0: the pins 0 to 7 are read, nothing panics
  and the message is written. And with 20 pins and \<open>p = 19\<close> the panic comes at index
  20; index 23 is never read.
\<close>

theorem DigitalWrite_wide_table_counterexample:
  "(256::nat) < length (pins (on_wire [] (New\<lparr>pins := replicate 257 (fresh_pin [])\<rparr>)))
   \<and> length (pins (on_wire [] (New\<lparr>pins := replicate 257 (fresh_pin [])\<rparr>))) mod 8 \<noteq> 0
   \<and> (256::nat) div 8 = length (pins (on_wire [] (New\<lparr>pins := replicate 257 (fresh_pin [])\<rparr>))) div 8
   \<and> DigitalWrite 256 1 (on_wire [] (New\<lparr>pins := replicate 257 (fresh_pin [])\<rparr>))
       = Inr (New\<lparr>pins := (replicate 257 (fresh_pin []))[256 := (fresh_pin [])\<lparr>Value := 1\<rparr>],
                   connection := Some \<lparr>incoming = [Seg [] None], written = [[0xB0, 0, 0]],
                                        wfail = False\<rparr>\<rparr>)
   \<and> DigitalWrite 19 1 (on_wire [] (New\<lparr>pins := replicate 20 (fresh_pin [])\<rparr>))
       = Inl (PanicIndex 20,
              on_wire [] (New\<lparr>pins := (replicate 20 (fresh_pin []))
                                        [19 := (fresh_pin [])\<lparr>Value := 1\<rparr>]\<rparr>))"
  by (simp add: DigitalWrite_def index_ok_def DigitalWrite_loop.simps write_conn_def
      on_wire_def New_def fresh_pin_def codes_defs Let_def)

subsection \<open>The digital message\<close>

lemma pin_number_inj:
  assumes "i < 8" "j < 8" "unat (8 * port + of_nat i :: byte) = unat (8 * port + of_nat j)"
  shows "i = j"
proof -
  from assms(3) have "(of_nat i :: byte) = of_nat j"
    by (simp flip: word_unat_eq_iff)
  then have "take_bit 8 i = take_bit 8 j"
    by (simp add: word_of_nat_eq_iff)
  moreover have "take_bit 8 i = i" "take_bit 8 j = j"
    using assms(1,2) by (simp_all add: take_bit_nat_eq_self)
  ultimately show ?thesis by simp
qed

lemma digital_loop_length:
  "length (fst (digital_loop port pv i ps evs)) = length ps"
proof (induction port pv i ps evs rule: digital_loop.induct)
  case (1 port pv i ps evs)
  then show ?case
    by (subst digital_loop.simps) (simp add: Let_def)
qed

lemma digital_loop_untouched:
  assumes "\<forall>j. i \<le> j \<and> j < 8 \<longrightarrow> unat (8 * port + of_nat j) \<noteq> n"
  shows "fst (digital_loop port pv i ps evs) ! n = ps ! n"
  using assms
proof (induction port pv i ps evs rule: digital_loop.induct)
  case (1 port pv i ps evs)
  show ?case
  proof (cases "i < 8")
    case True
    with "1.prems" have here: "unat (8 * port + of_nat i) \<noteq> n"
      by auto
    from "1.prems" have later: "\<forall>j. i + 1 \<le> j \<and> j < 8 \<longrightarrow> unat (8 * port + of_nat j) \<noteq> n"
      by auto
    show ?thesis
      using True here "1.IH"(1) [OF True refl _ refl later] "1.IH"(2) [OF True refl _ later]
      by (subst digital_loop.simps) (simp add: Let_def)
  next
    case False
    then show ?thesis
      by (subst digital_loop.simps) simp
  qed
qed

lemma digital_loop_at:
  assumes "i \<le> j" "j < 8" "unat (8 * port + of_nat j) = n" "n < length ps"
  shows "fst (digital_loop port pv i ps evs) ! n
         = (if Mode (ps ! n) = Input
            then (ps ! n)\<lparr>Value := uint (drop_bit (unat (of_nat j AND 0x07 :: byte)) pv AND 0x01)\<rparr>
            else ps ! n)"
  using assms
proof (induction port pv i ps evs rule: digital_loop.induct)
  case (1 port pv i ps evs)
  from "1.prems" have i8: "i < 8" by simp
  show ?case
  proof (cases "i = j")
    case True
    have later: "\<forall>k. i + 1 \<le> k \<and> k < 8 \<longrightarrow> unat (8 * port + of_nat k) \<noteq> n"
    proof (intro allI impI)
      fix k assume k: "i + 1 \<le> k \<and> k < 8"
      show "unat (8 * port + of_nat k) \<noteq> n"
      proof
        assume "unat (8 * port + of_nat k) = n"
        with "1.prems"(3) have "unat (8 * port + of_nat k) = unat (8 * port + of_nat j)"
          by simp
        with k "1.prems"(2) have "k = j"
          by (intro pin_number_inj [of k j port]) simp_all
        with True k show False by simp
      qed
    qed
    show ?thesis
      using True i8 "1.prems"(3,4) digital_loop_untouched [OF later]
      by (subst digital_loop.simps) (simp add: Let_def)
  next
    case False
    with "1.prems" have lt: "i + 1 \<le> j" by simp
    have here: "unat (8 * port + of_nat i) \<noteq> n"
    proof
      assume "unat (8 * port + of_nat i) = n"
      with "1.prems"(3) have "unat (8 * port + of_nat i) = unat (8 * port + of_nat j)"
        by simp
      with i8 "1.prems"(2) have "i = j"
        by (intro pin_number_inj [of i j port]) simp_all
      with False show False by simp
    qed
    show ?thesis
    proof (cases "length ps > unat (8 * port + of_nat i) \<and> Mode (ps ! unat (8 * port + of_nat i)) = Input")
      case True
      let ?m = "unat (8 * port + of_nat i)"
      let ?p = "(ps ! ?m)\<lparr>Value := uint (drop_bit (unat (of_nat i AND 0x07 :: byte)) pv AND 0x01)\<rparr>"
      have "fst (digital_loop port pv i ps evs) ! n
            = fst (digital_loop port pv (i + 1) (ps[?m := ?p]) (evs @ [PinReport ?m ?p])) ! n"
        using True i8 by (subst digital_loop.simps) (simp add: Let_def)
      also have "\<dots> = (if Mode (ps[?m := ?p] ! n) = Input
            then (ps[?m := ?p] ! n)\<lparr>Value := uint (drop_bit (unat (of_nat j AND 0x07 :: byte)) pv AND 0x01)\<rparr>
            else ps[?m := ?p] ! n)"
        using "1.IH"(1) [OF i8 refl True refl lt "1.prems"(2,3)] "1.prems"(4) by simp
      finally show ?thesis
        using here by simp
    next
      case F: False
      have "fst (digital_loop port pv i ps evs) ! n
            = fst (digital_loop port pv (i + 1) ps evs) ! n"
        using F i8 by (subst digital_loop.simps) (auto simp add: Let_def)
      then show ?thesis
        using "1.IH"(2) [OF i8 refl F lt "1.prems"(2,3,4)] by simp
    qed
  qed
qed

lemma bit_value:
  assumes "i < 8"
  shows "uint (drop_bit (unat (of_nat i AND 0x07 :: byte)) (pv :: byte) AND 0x01)
         = (if bit pv i then 1 else 0)"
proof -
  have "take_bit 3 i = i"
    using assms by (simp add: take_bit_nat_eq_self)
  moreover have "(0x07 :: byte) = mask 3"
    by (simp add: mask_eq_exp_minus_1)
  ultimately have "(of_nat i AND 0x07 :: byte) = of_nat i"
    by (simp only: flip: take_bit_eq_mask) (simp add: of_nat_take_bit [symmetric] del: of_nat_take_bit)
  moreover have "unat (of_nat i :: byte) = i"
    using assms by (simp add: unat_of_nat)
  moreover have "drop_bit i pv AND 1 = of_bool (bit pv i)"
    by (simp add: and_one_eq bit_iff_odd_drop_bit mod_2_eq_odd)
  ultimately show ?thesis
    by simp
qed

lemma port_pin_number:
  assumes "i < 8"
  shows "unat (8 * (st AND 0x0F) + of_nat i :: byte) = 8 * unat (st AND 0x0F) + i"
proof -
  have "st AND 0x0F \<le> 0x0F"
    by (rule word_and_le1)
  then have "unat (st AND 0x0F) \<le> 15"
    by (simp add: word_le_nat_alt)
  then show ?thesis
    using assms by (simp add: unat_word_ariths unat_of_nat)
qed

text \<open>
  C6. A digital message for port \<open>st AND 0x0F\<close> with mask \<open>lo OR push_bit 7 hi\<close>
  is applied without error, and for every bit \<open>i\<close> of the port whose pin
  \<open>8 * port + i\<close> is in the table: the pin is left as it was when its mode is not
  \<open>Input\<close>, and gets bit \<open>i\<close> of the mask as its value when its mode is \<open>Input\<close>.
\<close>

theorem digital_message_input_only:
  assumes "DigitalMessageRangeStart \<le> st" and "st \<le> DigitalMessageRangeEnd"
    and "i < 8" and "8 * unat (st AND 0x0F) + i < length (pins b)"
  shows "\<exists>b1 evs. dispatch slack [st, lo, hi] b = Inr (b1, evs)
           \<and> pins b1 ! (8 * unat (st AND 0x0F) + i)
               = (if Mode (pins b ! (8 * unat (st AND 0x0F) + i)) = Input
                  then (pins b ! (8 * unat (st AND 0x0F) + i))
                         \<lparr>Value := (if bit (lo OR push_bit 7 hi) i then 1 else 0)\<rparr>
                  else pins b ! (8 * unat (st AND 0x0F) + i))"
proof -
  let ?n = "8 * unat (st AND 0x0F) + i"
  let ?pv = "lo OR push_bit 7 hi"
  from assms(1,2) have range: "144 \<le> unat st" "unat st \<le> 159"
    by (simp_all add: word_le_nat_alt codes_defs)
  then have not_version: "ProtocolVersion_code \<noteq> st"
    and not_analog: "\<not> AnalogMessageRangeStart \<le> st"
    by (auto simp: word_le_nat_alt codes_defs)
  have disp: "dispatch slack [st, lo, hi] b = Inr (digital_case [st, lo, hi] b)"
    using not_version not_analog assms(1,2) by (simp add: dispatch_def)
  have n: "unat (8 * (st AND 0x0F) + of_nat i :: byte) = ?n"
    using assms(3) by (rule port_pin_number)
  have "fst (digital_loop (st AND 0x0F) ?pv 0 (pins b) []) ! ?n
        = (if Mode (pins b ! ?n) = Input
           then (pins b ! ?n)\<lparr>Value := uint (drop_bit (unat (of_nat i AND 0x07 :: byte)) ?pv AND 0x01)\<rparr>
           else pins b ! ?n)"
    by (rule digital_loop_at [OF _ assms(3) n assms(4)]) simp
  then have "fst (digital_loop (st AND 0x0F) ?pv 0 (pins b) []) ! ?n
        = (if Mode (pins b ! ?n) = Input
           then (pins b ! ?n)\<lparr>Value := (if bit ?pv i then 1 else 0)\<rparr>
           else pins b ! ?n)"
    by (simp only: bit_value [OF assms(3)])
  then have "pins (fst (digital_case [st, lo, hi] b)) ! ?n
        = (if Mode (pins b ! ?n) = Input
           then (pins b ! ?n)\<lparr>Value := (if bit ?pv i then 1 else 0)\<rparr>
           else pins b ! ?n)"
    by (simp add: digital_case_def split_beta Let_def)
  with disp show ?thesis
    by (cases "digital_case [st, lo, hi] b") auto
qed

theorem digital_message_input_only_witness:
  "DigitalMessageRangeStart \<le> 0x90 \<and> (0x90 :: byte) \<le> DigitalMessageRangeEnd \<and> (2::nat) < 8
   \<and> 8 * unat (0x90 AND 0x0F :: byte) + 2
       < length (pins (New\<lparr>pins := [fresh_pin [], fresh_pin [], (fresh_pin [Input])\<lparr>Mode := Input\<rparr>]\<rparr>))
   \<and> (\<exists>b1 evs. dispatch [] [0x90, 0x04, 0x00]
                    (New\<lparr>pins := [fresh_pin [], fresh_pin [], (fresh_pin [Input])\<lparr>Mode := Input\<rparr>]\<rparr>)
                  = Inr (b1, evs)
         \<and> pins b1 ! (8 * unat (0x90 AND 0x0F :: byte) + 2)
             = (fresh_pin [Input])\<lparr>Mode := Input, Value := 1\<rparr>)"
  using digital_message_input_only [of "0x90" 2
      "New\<lparr>pins := [fresh_pin [], fresh_pin [], (fresh_pin [Input])\<lparr>Mode := Input\<rparr>]\<rparr>" "[]" "0x04" "0x00"]
  by (simp add: New_def codes_defs fresh_pin_def)

subsection \<open>Sysex messages that are too short\<close>

text \<open>
  C7 (the code at the failing inputs). No short message is dropped. A pin state
  response with two bytes after the command (pin 13, mode 1) is applied with the
  \<open>0xF7\<close> that ends it as the state of the pin. With one byte after the command
  \<open>process\<close> stores \<open>0xF7\<close> as the mode of pin 13 and then panics at
  \<open>currentBuffer[4]\<close>. An I2C reply with two bytes after the command panics at
  \<open>currentBuffer[5]\<close>.
\<close>

theorem short_frames_crash:
  "process slack (on_wire [240, 110, 13, 1, 247] (New\<lparr>pins := replicate 20 (fresh_pin [])\<rparr>))
     = Some (Inr (New\<lparr>pins := (replicate 20 (fresh_pin []))
                                   [13 := (fresh_pin [])\<lparr>Mode := 1, State := 247\<rparr>],
                       connection := Some \<lparr>incoming = [], written = [], wfail = False\<rparr>\<rparr>,
                  [PinStateReport 13 ((fresh_pin [])\<lparr>Mode := 1, State := 247\<rparr>)]))
   \<and> process slack (on_wire [240, 110, 13, 247] (New\<lparr>pins := replicate 20 (fresh_pin [])\<rparr>))
       = Some (Inl (PanicIndex 4,
                    New\<lparr>pins := (replicate 20 (fresh_pin []))[13 := (fresh_pin [])\<lparr>Mode := 247\<rparr>],
                        connection := Some \<lparr>incoming = [], written = [], wfail = False\<rparr>\<rparr>))
   \<and> process slack (on_wire [240, 119, 9, 0, 247] (New\<lparr>pins := replicate 20 (fresh_pin [])\<rparr>))
       = Some (Inl (PanicIndex 5,
                    New\<lparr>pins := replicate 20 (fresh_pin []),
                        connection := Some \<lparr>incoming = [], written = [], wfail = False\<rparr>\<rparr>))"
  by (simp add: process_def eval_read dispatch_def
      process_sysex_def PinStateResponse_case_def I2CReply_case_def on_wire_def New_def
      fresh_pin_def codes_defs Let_def)

subsection \<open>The I2C reply\<close>

text \<open>
  C8 (the code at the failing inputs). The address bytes 0 and 2 give the address 0,
  where \<open>unpack14\<close> gives 256: the two bytes are joined as bytes. A byte left over
  after the last pair (here 5) is joined with the \<open>0xF7\<close> that ends the message and
  gives one more byte of data, 133. The reply of the test is decoded as the claim says.
\<close>

theorem I2CReply_truncated:
  "process slack (on_wire [240, 119, 0, 2, 0, 0, 24, 1, 247] New)
     = Some (Inr (New\<lparr>connection := Some \<lparr>incoming = [], written = [], wfail = False\<rparr>\<rparr>,
                  [I2cReplyEvent \<lparr>Address = 0, Register = 0, Data = [152]\<rparr>]))
   \<and> unpack14 0 2 = 256
   \<and> process slack (on_wire [240, 119, 9, 0, 0, 0, 24, 1, 5, 247] New)
       = Some (Inr (New\<lparr>connection := Some \<lparr>incoming = [], written = [], wfail = False\<rparr>\<rparr>,
                    [I2cReplyEvent \<lparr>Address = 9, Register = 0, Data = [152, 133]\<rparr>]))
   \<and> process slack (on_wire [240, 119, 9, 0, 0, 0, 24, 1, 1, 0, 26, 1, 247] New)
       = Some (Inr (New\<lparr>connection := Some \<lparr>incoming = [], written = [], wfail = False\<rparr>\<rparr>,
                    [I2cReplyEvent \<lparr>Address = 9, Register = 0, Data = [152, 1, 154]\<rparr>]))"
  by (simp add: process_def eval_read dispatch_def
      process_sysex_def I2CReply_case_def i2c_loop.simps on_wire_def New_def codes_defs
      unpack14_def Let_def)

subsection \<open>The capability and the analog mapping response\<close>

lemma capability_loop_length:
  "length (capability_loop vals ps supportedModes n) = length ps + count_list vals 127"
  by (induction vals arbitrary: ps supportedModes n) auto

lemma modes_of_subset: "set (modes_of supportedModes) \<subseteq> {Input, Output, Analog, Pwm, Servo}"
  by (auto simp: modes_of_def)

lemma capability_loop_modes:
  assumes "\<forall>p \<in> set ps. set (SupportedModes p) \<subseteq> {Input, Output, Analog, Pwm, Servo}"
  shows "\<forall>p \<in> set (capability_loop vals ps supportedModes n).
           set (SupportedModes p) \<subseteq> {Input, Output, Analog, Pwm, Servo}"
  using assms
proof (induction vals arbitrary: ps supportedModes n)
  case Nil
  then show ?case by simp
next
  case (Cons val vals)
  show ?case
  proof (cases "val = 127")
    case True
    let ?p = "\<lparr>SupportedModes = modes_of supportedModes, Mode = Output, Value = 0,
               State = 0, AnalogChannel = 0\<rparr>"
    have "\<forall>p \<in> set (ps @ [?p]). set (SupportedModes p) \<subseteq> {Input, Output, Analog, Pwm, Servo}"
      using Cons.prems modes_of_subset [of supportedModes] by auto
    from Cons.IH [OF this] True show ?thesis by simp
  next
    case False
    with Cons.IH [OF Cons.prems] show ?thesis by simp
  qed
qed

text \<open>
  What the capability case does in general: it counts the \<open>0x7F\<close> bytes of
  \<open>currentBuffer[2:len-5]\<close> only, and every pin supports a subset of the five modes.
\<close>

lemma CapabilityResponse_case_pins:
  assumes "7 \<le> length currentBuffer"
  shows "\<exists>b1 evs. CapabilityResponse_case currentBuffer b = Inr (b1, evs)
           \<and> length (pins b1)
               = count_list (take (length currentBuffer - 7) (drop 2 currentBuffer)) 127
           \<and> (\<forall>p \<in> set (pins b1). set (SupportedModes p) \<subseteq> {Input, Output, Analog, Pwm, Servo})"
  using assms capability_loop_modes [of "[]"]
  by (simp add: CapabilityResponse_case_def capability_loop_length)

text \<open>
  C1 (the code at the failing input). The capability response of the test has 20
  terminators between its command byte and \<open>EndSysex\<close>; \<open>process\<close> builds a table
  of 19 pins from it, as the last four bytes before \<open>EndSysex\<close> are not looked at.
\<close>

theorem capability_uno_pins:
  "count_list (butlast (drop 2 testCapabilitiesResponse)) 0x7F = 20
   \<and> (case process slack (on_wire testCapabilitiesResponse New) of
         Some (Inr (b1, evs)) \<Rightarrow> length (pins b1) = 19
       | _ \<Rightarrow> False)"
  by (simp add: process_def eval_read dispatch_def
      process_sysex_def CapabilityResponse_case_def
      on_wire_def New_def testCapabilitiesResponse_def codes_defs)

text \<open>
  C2 (the code at the failing input). After the capability response and the analog
  mapping response of the test, the analog pins are \<open>[14, 15]\<close>: with 19 pins the loop
  walks \<open>currentBuffer[2:18]\<close>, the bytes of pins 0 to 15.
\<close>

theorem analog_mapping_uno:
  "(case process slack1 (on_wire (testCapabilitiesResponse @ testAnalogMappingResponse) New) of
      Some (Inr (b1, evs1)) \<Rightarrow>
        (case process slack2 b1 of
           Some (Inr (b2, evs2)) \<Rightarrow> length (pins b2) = 19 \<and> analogPins b2 = [14, 15]
         | _ \<Rightarrow> False)
    | _ \<Rightarrow> False)"
  by (simp add: process_def eval_read dispatch_def
      process_sysex_def CapabilityResponse_case_def AnalogMappingResponse_case_def
      on_wire_def New_def testCapabilitiesResponse_def testAnalogMappingResponse_def
      codes_defs modes_of_def modes_defs)

end
